theory Spec2Isabelle
  imports Complex_Main "HOL-Library.Multiset" "HOL-Library.Product_Lexorder"
begin

section \<open>JavaScript values used by the program\<close>

text \<open>
  The program computes with JavaScript numbers, which are IEEE 754 doubles. Every
  number it keeps is an integer (a byte count, a count of items, a time in
  milliseconds), \<open>NaN\<close> (which \<open>Number\<close> returns for a malformed decimal such as
  \<open>1.2.3\<close>) or an infinity (\<open>Number\<close> of a magnitude of several hundred digits is
  \<open>Infinity\<close>, and the difference of a number and \<open>Infinity\<close> is \<open>-Infinity\<close>). The
  one place where the source computes with fractions is \<open>parseDockerSize\<close>; the
  rounding of doubles is modelled there. Sums and differences of two integers are
  exact, as they are for doubles as long as the values stay below \<open>2 ^ 53\<close>.
\<close>

datatype number = NaN | Num int | PosInf | NegInf

fun num_add :: "number \<Rightarrow> number \<Rightarrow> number" where
  "num_add (Num a) (Num b) = Num (a + b)"
| "num_add NaN _ = NaN"
| "num_add _ NaN = NaN"
| "num_add PosInf NegInf = NaN"
| "num_add NegInf PosInf = NaN"
| "num_add PosInf _ = PosInf"
| "num_add _ PosInf = PosInf"
| "num_add NegInf _ = NegInf"
| "num_add _ NegInf = NegInf"

fun num_sub :: "number \<Rightarrow> number \<Rightarrow> number" where
  "num_sub (Num a) (Num b) = Num (a - b)"
| "num_sub NaN _ = NaN"
| "num_sub _ NaN = NaN"
| "num_sub PosInf PosInf = NaN"
| "num_sub NegInf NegInf = NaN"
| "num_sub PosInf _ = PosInf"
| "num_sub _ PosInf = NegInf"
| "num_sub NegInf _ = NegInf"
| "num_sub _ NegInf = PosInf"

text \<open>\<open>a >= b\<close> of the source: false as soon as one side is \<open>NaN\<close>.\<close>

fun num_ge :: "number \<Rightarrow> number \<Rightarrow> bool" where
  "num_ge (Num a) (Num b) = (b \<le> a)"
| "num_ge NaN _ = False"
| "num_ge _ NaN = False"
| "num_ge PosInf _ = True"
| "num_ge _ NegInf = True"
| "num_ge _ _ = False"

text \<open>Truthiness: \<open>0\<close> and \<open>NaN\<close> are falsy numbers, \<open>undefined\<close> and \<open>""\<close> falsy strings.\<close>

definition num_truthy :: "number \<Rightarrow> bool" where
  "num_truthy n = (n \<noteq> NaN \<and> n \<noteq> Num 0)"

definition num_or :: "number \<Rightarrow> number \<Rightarrow> number" where
  "num_or a b = (if num_truthy a then a else b)"

definition str_truthy :: "string option \<Rightarrow> bool" where
  "str_truthy s = (s \<noteq> None \<and> s \<noteq> Some [])"




text \<open>
  A thrown value: an \<open>Error\<close> object with its message, or any other value, kept as the
  string that \<open>String(error)\<close> gives for it.
\<close>

datatype thrown = JsError string | JsValue string

subsection \<open>Characters\<close>

text \<open>
  Strings are lists of 8-bit code units. White space (\<open>\s\<close> and \<open>trim\<close>) in that range
  is tab, line feed, vertical tab, form feed, carriage return, space and no-break space.
\<close>

definition is_space :: "char \<Rightarrow> bool" where
  "is_space c = (c \<in> set [CHR 0x09, CHR 0x0A, CHR 0x0B, CHR 0x0C, CHR 0x0D, CHR 0x20, CHR 0xA0])"

definition is_digit :: "char \<Rightarrow> bool" where
  "is_digit c = (c \<in> set ''0123456789'')"

text \<open>The class \<open>[0-9.]\<close>.\<close>

definition is_mag :: "char \<Rightarrow> bool" where
  "is_mag c = (is_digit c \<or> c = CHR ''.'')"

text \<open>The class \<open>[A-Za-z]\<close>.\<close>

definition is_alpha :: "char \<Rightarrow> bool" where
  "is_alpha c = (c \<in> set ''ABCDEFGHIJKLMNOPQRSTUVWXYZabcdefghijklmnopqrstuvwxyz'')"

definition ascii_lower :: "char \<Rightarrow> char" where
  "ascii_lower c =
     (case map_of (zip ''ABCDEFGHIJKLMNOPQRSTUVWXYZ'' ''abcdefghijklmnopqrstuvwxyz'') c of
        None \<Rightarrow> c
      | Some l \<Rightarrow> l)"

definition toLowerCase :: "string \<Rightarrow> string" where
  "toLowerCase s = map ascii_lower s"

definition trim :: "string \<Rightarrow> string" where
  "trim s = rev (dropWhile is_space (rev (dropWhile is_space s)))"

subsection \<open>Regular expressions, as backtracking matchers\<close>

text \<open>
  Each regular expression of the source is written with the combinators below, which
  follow the backtracking order of the JavaScript matcher. A matcher takes the rest of
  the input; a continuation \<open>k\<close> receives the text just consumed and the input after it.
  \<open>star P\<close> is the greedy \<open>[P]*\<close>: it first tries to consume one more character and only
  when the rest of the pattern fails there does it go on from the current position.
\<close>

fun star :: "(char \<Rightarrow> bool) \<Rightarrow> (string \<Rightarrow> string \<Rightarrow> 'a option) \<Rightarrow> string \<Rightarrow> string \<Rightarrow> 'a option" where
  "star P k acc [] = k acc []"
| "star P k acc (c # cs) =
     (if P c
      then (case star P k (acc @ [c]) cs of Some r \<Rightarrow> Some r | None \<Rightarrow> k acc (c # cs))
      else k acc (c # cs))"

text \<open>The greedy \<open>[P]+\<close>.\<close>

definition plus1 :: "(char \<Rightarrow> bool) \<Rightarrow> (string \<Rightarrow> string \<Rightarrow> 'a option) \<Rightarrow> string \<Rightarrow> 'a option" where
  "plus1 P k s = (case s of [] \<Rightarrow> None | c # cs \<Rightarrow> if P c then star P k [c] cs else None)"

text \<open>A literal under the \<open>i\<close> flag; the result is the input after it.\<close>

fun lit_ci :: "string \<Rightarrow> string \<Rightarrow> string option" where
  "lit_ci [] s = Some s"
| "lit_ci (p # ps) [] = None"
| "lit_ci (p # ps) (c # cs) = (if ascii_lower p = ascii_lower c then lit_ci ps cs else None)"

text \<open>An alternation of literals, tried from left to right.\<close>

fun alt :: "string list \<Rightarrow> (string \<Rightarrow> string \<Rightarrow> 'a option) \<Rightarrow> string \<Rightarrow> 'a option" where
  "alt [] k s = None"
| "alt (p # ps) k s =
     (case lit_ci p s of
        None \<Rightarrow> alt ps k s
      | Some r \<Rightarrow> (case k (take (length p) s) r of Some x \<Rightarrow> Some x | None \<Rightarrow> alt ps k s))"

text \<open>\<open>String.prototype.match\<close> without the \<open>g\<close> flag: the leftmost start that matches.\<close>

fun search :: "(string \<Rightarrow> 'a option) \<Rightarrow> string \<Rightarrow> 'a option" where
  "search m [] = m []"
| "search m (c # cs) = (case m (c # cs) of Some r \<Rightarrow> Some r | None \<Rightarrow> search m cs)"

section \<open>Size codec (docker.ts)\<close>

text \<open>\<open>/([0-9.]+)\s*(B|kB|KB|MB|GB|TB)/i\<close>, giving the two groups.\<close>

definition unit_alts :: "string list" where
  "unit_alts = [''B'', ''kB'', ''KB'', ''MB'', ''GB'', ''TB'']"

definition size_re :: "string \<Rightarrow> (string \<times> string) option" where
  "size_re =
     plus1 is_mag (\<lambda>m r. star is_space (\<lambda>w r'. alt unit_alts (\<lambda>u r''. Some (m, u)) r') [] r)"

definition digit_val :: "char \<Rightarrow> nat" where
  "digit_val c = of_char c - 48"

definition digits_val :: "string \<Rightarrow> nat" where
  "digits_val ds = foldl (\<lambda>a c. 10 * a + digit_val c) 0 ds"

text \<open>
  \<open>Number(m)\<close> for a text \<open>m\<close> of digits and dots: \<open>Some (n, k)\<close> stands for the decimal
  \<open>n / 10 ^ k\<close>, \<open>None\<close> for \<open>NaN\<close> (no digit at all, or more than one dot).
\<close>

definition Number_dec :: "string \<Rightarrow> (nat \<times> nat) option" where
  "Number_dec m =
     (let ip = takeWhile is_digit m; r = dropWhile is_digit m in
      case r of
        [] \<Rightarrow> (if ip = [] then None else Some (digits_val ip, 0))
      | d # fp \<Rightarrow>
          if d = CHR ''.'' \<and> list_all is_digit fp \<and> (ip \<noteq> [] \<or> fp \<noteq> [])
          then Some (digits_val (ip @ fp), length fp) else None)"

definition multipliers :: "string \<Rightarrow> nat option" where
  "multipliers u =
     (if u = ''b'' then Some 1
      else if u = ''kb'' then Some 1000
      else if u = ''mb'' then Some (1000 ^ 2)
      else if u = ''gb'' then Some (1000 ^ 3)
      else if u = ''tb'' then Some (1000 ^ 4)
      else None)"

text \<open>
  The arithmetic of doubles. A non-negative rational is a pair \<open>(p, q)\<close> of naturals
  standing for \<open>p / q\<close>. \<open>to_double\<close> rounds it to the nearest double, a tie going to
  the even significand: with \<open>e\<close> the binary exponent of the value (not below \<open>-1022\<close>,
  where the subnormal numbers begin) the doubles around it are the multiples of
  \<open>2 ^ (e - 52)\<close>, and a result of \<open>2 ^ 1024\<close> or more is \<open>Infinity\<close>, written \<open>None\<close>.
\<close>

fun bit_length :: "nat \<Rightarrow> nat" where
  "bit_length n = (if n = 0 then 0 else Suc (bit_length (n div 2)))"

declare bit_length.simps [simp del]

text \<open>The rational \<open>v\<close> times \<open>2 ^ s\<close>.\<close>

definition shift :: "nat \<times> nat \<Rightarrow> int \<Rightarrow> nat \<times> nat" where
  "shift v s = (if 0 \<le> s then (fst v * 2 ^ nat s, snd v) else (fst v, snd v * 2 ^ nat (- s)))"

text \<open>The \<open>e\<close> with \<open>2 ^ e \<le> v < 2 ^ (e + 1)\<close>, for a positive \<open>v\<close>.\<close>

definition floor_log2 :: "nat \<times> nat \<Rightarrow> int" where
  "floor_log2 v =
     (let d = int (bit_length (fst v)) - int (bit_length (snd v)); w = shift v (- d)
      in if snd w \<le> fst w then d else d - 1)"

definition round_half_even :: "nat \<times> nat \<Rightarrow> nat" where
  "round_half_even v =
     (let d = fst v div snd v; r = fst v mod snd v
      in if 2 * r < snd v then d
         else if snd v < 2 * r then d + 1
         else if even d then d else d + 1)"

definition to_double :: "nat \<times> nat \<Rightarrow> (nat \<times> nat) option" where
  "to_double v =
     (if fst v = 0 then Some (0, 1)
      else
        let e = max (floor_log2 v) (- 1022);
            s = e - 52;
            r = round_half_even (shift v (- s));
            y = shift (r, 1) s
        in if 2 ^ 1024 * snd y \<le> fst y then None else Some y)"

text \<open>
  \<open>Math.round(value * multiplier)\<close> for \<open>value = Number(m)\<close>, where \<open>m\<close> reads as the
  decimal \<open>n / 10 ^ k\<close>: \<open>Number\<close> gives the double nearest to the decimal, the product
  is the double nearest to the exact product of that double and the multiplier, and
  \<open>Math.round\<close> gives the integer nearest to the product, a half rounding up. \<open>NaN\<close>
  stays \<open>NaN\<close>, \<open>Infinity\<close> stays \<open>Infinity\<close>.
\<close>

definition round_scaled :: "(nat \<times> nat) option \<Rightarrow> nat \<Rightarrow> number" where
  "round_scaled v factor =
     (case v of
        None \<Rightarrow> NaN
      | Some (n, k) \<Rightarrow>
          (case to_double (n, 10 ^ k) of
             None \<Rightarrow> PosInf
           | Some x \<Rightarrow>
               (case to_double (fst x * factor, snd x) of
                  None \<Rightarrow> PosInf
                | Some y \<Rightarrow> Num (int ((2 * fst y + snd y) div (2 * snd y))))))"

definition parseDockerSize :: "string option \<Rightarrow> number" where
  "parseDockerSize size_text =
     (if \<not> str_truthy size_text then Num 0
      else
        let trimmed = trim (the size_text) in
        case search size_re trimmed of
          None \<Rightarrow> Num 0
        | Some (value_text, unit_text) \<Rightarrow>
            let unit_key = toLowerCase unit_text in
            round_scaled (Number_dec value_text)
              (case multipliers unit_key of None \<Rightarrow> 1 | Some m \<Rightarrow> m))"

section \<open>The runtime: clock, built-ins and the docker executable\<close>

text \<open>
  What the program takes from outside is collected in one record: \<open>Date.now\<close> (read as a
  function of the number of docker commands run so far, so that time may pass between
  two readings), \<open>Date.parse\<close> (\<open>None\<close> for \<open>NaN\<close>), \<open>Date.prototype.toISOString\<close>,
  \<open>JSON.parse\<close> of one line of docker output, and the docker executable itself, whose
  answer to a command may depend on the commands run before. The state that is passed
  along is the list of commands run so far.
\<close>

type_synonym calls = "string list list"

type_synonym rawrec = "(string \<times> string) list"

record runtime =
  Date_now :: "nat \<Rightarrow> int"
  Date_parse :: "string \<Rightarrow> int option"
  toISOString :: "int \<Rightarrow> string"
  JSON_parse :: "string \<Rightarrow> thrown + rawrec"
  docker :: "calls \<Rightarrow> string list \<Rightarrow> thrown + string"

definition execDocker :: "runtime \<Rightarrow> string list \<Rightarrow> calls \<Rightarrow> (thrown + string) \<times> calls" where
  "execDocker rt args hist = (docker rt hist args, hist @ [args])"

datatype ResourceType = containers | images | volumes | networks | cache

subsection \<open>docker.ts\<close>










text \<open>\<open>if (filterUntil) args.push("--filter", `until=${filterUntil}`)\<close>.\<close>

definition until_args :: "string option \<Rightarrow> string list" where
  "until_args filterUntil =
     (if str_truthy filterUntil then [''--filter'', ''until='' @ the filterUntil] else [])"


definition prune_args :: "ResourceType \<Rightarrow> string option \<Rightarrow> bool \<Rightarrow> string list" where
  "prune_args t filterUntil includeAllImages =
     (case t of
        containers \<Rightarrow> [''container'', ''prune'', ''-f'']
      | images \<Rightarrow> [''image'', ''prune'', ''-f''] @ (if includeAllImages then [''-a''] else [])
      | volumes \<Rightarrow> [''volume'', ''prune'', ''-f'', ''-a'']
      | networks \<Rightarrow> [''network'', ''prune'', ''-f'']
      | cache \<Rightarrow> [''builder'', ''prune'', ''-f''])
     @ until_args filterUntil"

definition dockerPrune :: "runtime \<Rightarrow> ResourceType \<Rightarrow> string option \<Rightarrow> bool \<Rightarrow> calls \<Rightarrow> (thrown + string) \<times> calls" where
  "dockerPrune rt t filterUntil includeAllImages hist =
     execDocker rt (prune_args t filterUntil includeAllImages) hist"

text \<open>
  \<open>new Date(cutoff).toISOString()\<close> throws a \<open>RangeError\<close> when the time value is outside
  the range of \<open>Date\<close>, 8.64e15 milliseconds either side of the epoch.
\<close>

definition filterUntilTimestamp :: "runtime \<Rightarrow> nat \<Rightarrow> int option \<Rightarrow> thrown + string option" where
  "filterUntilTimestamp rt tick olderThanMs =
     (if olderThanMs = None \<or> olderThanMs = Some 0 then Inr None
      else
        let cutoff = Date_now rt tick - the olderThanMs in
        if 8640000000000000 < \<bar>cutoff\<bar> then Inl (JsError ''Invalid time value'')
        else Inr (Some (toISOString rt cutoff)))"


definition dockerRemoveContainers :: "runtime \<Rightarrow> string list \<Rightarrow> calls \<Rightarrow> (thrown + string) \<times> calls" where
  "dockerRemoveContainers rt containerIds hist =
     (if length containerIds = 0 then (Inr [], hist)
      else execDocker rt ([''container'', ''rm'', ''-f''] @ containerIds) hist)"

definition dockerRemoveImages :: "runtime \<Rightarrow> string list \<Rightarrow> calls \<Rightarrow> (thrown + string) \<times> calls" where
  "dockerRemoveImages rt imageIds hist =
     (if length imageIds = 0 then (Inr [], hist)
      else execDocker rt ([''image'', ''rm'', ''-f''] @ imageIds) hist)"

definition dockerRemoveVolumes :: "runtime \<Rightarrow> string list \<Rightarrow> calls \<Rightarrow> (thrown + string) \<times> calls" where
  "dockerRemoveVolumes rt volumeNames hist =
     (if length volumeNames = 0 then (Inr [], hist)
      else execDocker rt ([''volume'', ''rm'', ''-f''] @ volumeNames) hist)"

definition dockerRemoveNetworks :: "runtime \<Rightarrow> string list \<Rightarrow> calls \<Rightarrow> (thrown + string) \<times> calls" where
  "dockerRemoveNetworks rt networkIds hist =
     (if length networkIds = 0 then (Inr [], hist)
      else execDocker rt ([''network'', ''rm''] @ networkIds) hist)"

section \<open>Data model (types.ts)\<close>

record ResourceItem =
  id_f :: string
  name :: string
  size_f :: "string option"
  createdAt :: "string option"
  lastUsed :: "string option"
  raw :: "rawrec option"



section \<open>Age filter and size selector (scan.ts)\<close>

record ScanOptions =
  includeContainers :: bool
  includeImages :: bool
  includeVolumes :: bool
  includeNetworks :: bool
  includeCache :: bool
  olderThanMs :: "int option"
  includeAllImages :: "bool option"
  top_f :: "int option"
  limitSpaceBytes :: "int option"


definition applyOlderThan :: "runtime \<Rightarrow> nat \<Rightarrow> ResourceItem list \<Rightarrow> int option \<Rightarrow> ResourceItem list" where
  "applyOlderThan rt tick items_in older =
     (if older = None \<or> older = Some 0 then items_in
      else
        let cutoff = Date_now rt tick - the older in
        filter (\<lambda>item.
          if \<not> str_truthy (createdAt item) then False
          else (case Date_parse rt (the (createdAt item)) of
                  None \<Rightarrow> False
                | Some created \<Rightarrow> cutoff \<le> created)) items_in)"

text \<open>
  \<open>[...items].sort((a, b) => sizeB - sizeA)\<close>. \<open>Array.prototype.sort\<close> is a stable sort,
  and a comparator result of \<open>NaN\<close> counts as \<open>+0\<close>. The sort is modelled as the stable
  insertion sort driven by the comparator: an element moves behind another one only
  when the comparator is positive for the pair. For a comparator that orders the
  elements consistently every stable sort gives this result; sizes that parse to
  \<open>NaN\<close> make the comparator inconsistent, and the language then leaves the order to
  the engine.
\<close>

definition compare_size :: "ResourceItem \<Rightarrow> ResourceItem \<Rightarrow> number" where
  "compare_size a b =
     (let sizeA = parseDockerSize (size_f a); sizeB = parseDockerSize (size_f b)
      in num_sub sizeB sizeA)"

definition cmp_positive :: "number \<Rightarrow> bool" where
  "cmp_positive v = (case v of NaN \<Rightarrow> False | Num d \<Rightarrow> 0 < d | PosInf \<Rightarrow> True | NegInf \<Rightarrow> False)"

fun insert_cmp :: "('a \<Rightarrow> 'a \<Rightarrow> number) \<Rightarrow> 'a \<Rightarrow> 'a list \<Rightarrow> 'a list" where
  "insert_cmp cmp x [] = [x]"
| "insert_cmp cmp x (y # ys) =
     (if cmp_positive (cmp x y) then y # insert_cmp cmp x ys else x # y # ys)"

definition sort_cmp :: "('a \<Rightarrow> 'a \<Rightarrow> number) \<Rightarrow> 'a list \<Rightarrow> 'a list" where
  "sort_cmp cmp xs = foldr (insert_cmp cmp) xs []"

definition sortBySize :: "ResourceItem list \<Rightarrow> ResourceItem list" where
  "sortBySize items_in = sort_cmp compare_size items_in"

text \<open>\<open>items.slice(0, n)\<close>; a negative \<open>n\<close> counts from the end.\<close>

definition selectTopN :: "ResourceItem list \<Rightarrow> int \<Rightarrow> ResourceItem list" where
  "selectTopN items_in n =
     (if 0 \<le> n then take (nat n) items_in else take (nat (int (length items_in) + n)) items_in)"

fun select_loop :: "int \<Rightarrow> ResourceItem list \<Rightarrow> number \<Rightarrow> ResourceItem list \<Rightarrow> ResourceItem list" where
  "select_loop limitBytes selected totalBytes [] = selected"
| "select_loop limitBytes selected totalBytes (item # rest) =
     (let selected' = selected @ [item];
          totalBytes' = num_add totalBytes (parseDockerSize (size_f item))
      in if num_ge totalBytes' (Num limitBytes) then selected'
         else select_loop limitBytes selected' totalBytes' rest)"

definition selectUntilSpaceLimit :: "ResourceItem list \<Rightarrow> int \<Rightarrow> ResourceItem list" where
  "selectUntilSpaceLimit items_in limitBytes = select_loop limitBytes [] (Num 0) items_in"

definition int_truthy :: "int option \<Rightarrow> bool" where
  "int_truthy n = (n \<noteq> None \<and> n \<noteq> Some 0)"

definition applySizeFilters :: "ResourceItem list \<Rightarrow> int option \<Rightarrow> int option \<Rightarrow> ResourceItem list" where
  "applySizeFilters items_in top_n limit =
     (if \<not> int_truthy top_n \<and> \<not> int_truthy limit then items_in
      else
        let sorted_items = sortBySize items_in in
        if top_n \<noteq> None then selectTopN sorted_items (the top_n)
        else if limit \<noteq> None then selectUntilSpaceLimit sorted_items (the limit)
        else sorted_items)"

text \<open>\<open>filtered.reduce((sum, item) => sum + parseDockerSize(item.size), 0)\<close>.\<close>

definition sum_sizes :: "ResourceItem list \<Rightarrow> number" where
  "sum_sizes its = foldl (\<lambda>sum item. num_add sum (parseDockerSize (size_f item))) (Num 0) its"

section \<open>Scan orchestrator (scan.ts)\<close>










text \<open>\<open>/<label>\s*([0-9.]+\s*[A-Za-z]+)/i\<close>, giving the group.\<close>

definition amount_re :: "string \<Rightarrow> string \<Rightarrow> string option" where
  "amount_re label_text s =
     (case lit_ci label_text s of
        None \<Rightarrow> None
      | Some r \<Rightarrow>
          star is_space (\<lambda>w0 r1.
            plus1 is_mag (\<lambda>m r2.
              star is_space (\<lambda>w r3.
                plus1 is_alpha (\<lambda>a r4. Some (m @ w @ a)) r3) [] r2) r1) [] r)"







section \<open>Cleanup orchestrator (clean.ts)\<close>

text \<open>
  \<open>SelectedResources\<close> is declared in a part of types.ts that is not among the sources;
  from its use (\<open>options.selectedIds![type]\<close>, then \<open>ids && ids.length > 0\<close>) it maps a
  resource type to a list of identifiers, which may be missing.
\<close>

type_synonym SelectedResources = "ResourceType \<Rightarrow> string list option"

record CleanOptions =
  resources :: "ResourceType list"
  olderThanMs :: "int option"
  dryRun :: bool
  includeAllImages :: bool
  expectedCounts :: "ResourceType \<Rightarrow> int"
  selectedIds :: "SelectedResources option"
  estimatedBytes :: "(ResourceType \<Rightarrow> number) option"

record CleanResult =
  removed :: "ResourceType \<Rightarrow> int"
  failures :: "ResourceType \<Rightarrow> string list"
  reclaimedBytes :: number

text \<open>\<open>/Deleted (?:Containers|Images|Volumes|Networks):\s*([0-9]+)/i\<close>, giving the input
  after the match.\<close>

definition deleted_re :: "string \<Rightarrow> string option" where
  "deleted_re s =
     (case lit_ci ''Deleted '' s of
        None \<Rightarrow> None
      | Some r0 \<Rightarrow>
          alt [''Containers'', ''Images'', ''Volumes'', ''Networks'']
            (\<lambda>kind r1.
               case lit_ci '':'' r1 of
                 None \<Rightarrow> None
               | Some r2 \<Rightarrow> star is_space (\<lambda>w r3. plus1 is_digit (\<lambda>d r4. Some r4) r3) [] r2)
            r0)"

text \<open>
  \<open>String.prototype.match\<close> with the \<open>g\<close> flag: the texts of all matches, each search
  starting where the match before ended (\<open>skip\<close> counts the characters of the current
  match that are still to be passed).
\<close>

fun match_all :: "(string \<Rightarrow> string option) \<Rightarrow> nat \<Rightarrow> string \<Rightarrow> string list" where
  "match_all m skip [] = []"
| "match_all m skip (c # cs) =
     (if 0 < skip then match_all m (skip - 1) cs
      else (case m (c # cs) of
              None \<Rightarrow> match_all m 0 cs
            | Some rest \<Rightarrow>
                take (length (c # cs) - length rest) (c # cs)
                  # match_all m (length (c # cs) - length rest - 1) cs))"

text \<open>\<open>/([0-9]+)$/\<close>, giving the group.\<close>

definition trailing_re :: "string \<Rightarrow> string option" where
  "trailing_re = plus1 is_digit (\<lambda>d r. if r = [] then Some d else None)"

definition parsePrunedCount :: "string \<Rightarrow> int" where
  "parsePrunedCount output =
     foldl (\<lambda>sum line.
              sum + (case search trailing_re line of None \<Rightarrow> 0 | Some d \<Rightarrow> int (digits_val d)))
       0 (match_all deleted_re 0 output)"

definition parseReclaimedBytes :: "string \<Rightarrow> number" where
  "parseReclaimedBytes output =
     (case search (amount_re ''Total reclaimed space:'') output of
        None \<Rightarrow> Num 0
      | Some g \<Rightarrow> parseDockerSize (Some g))"

text \<open>\<open>error instanceof Error ? error.message : String(error)\<close>.\<close>

definition error_text :: "thrown \<Rightarrow> string" where
  "error_text e = (case e of JsError message \<Rightarrow> message | JsValue shown \<Rightarrow> shown)"

text \<open>\<open>parsePrunedCount(output) || options.expectedCounts[type]\<close>.\<close>

definition count_or :: "int \<Rightarrow> int \<Rightarrow> int" where
  "count_or a b = (if a \<noteq> 0 then a else b)"

definition no_result :: CleanResult where
  "no_result = \<lparr> removed = (\<lambda>t. 0), failures = (\<lambda>t. []), reclaimedBytes = Num 0 \<rparr>"

text \<open>The \<open>catch\<close> block of the loop.\<close>

definition catch_failure :: "ResourceType \<Rightarrow> thrown \<Rightarrow> CleanResult \<Rightarrow> CleanResult" where
  "catch_failure t e res = res\<lparr> failures := (failures res)(t := failures res t @ [error_text e]) \<rparr>"

text \<open>
  One turn of the loop of \<open>cleanResources\<close> (the version with identifier-based removal):
  the \<open>try\<close> body for the resource type \<open>t\<close>, and the \<open>catch\<close> when the docker command
  throws. The state is the result record under construction and the commands run.
\<close>

definition clean_step ::
  "runtime \<Rightarrow> CleanOptions \<Rightarrow> string option \<Rightarrow> CleanResult \<times> calls \<Rightarrow> ResourceType
     \<Rightarrow> CleanResult \<times> calls" where
  "clean_step rt options filterUntil st t =
     (let res = fst st; hist = snd st; useBulkPrune = (selectedIds options = None) in
      if useBulkPrune then
        (case dockerPrune rt t filterUntil (includeAllImages options \<and> t = images) hist of
           (Inl e, hist') \<Rightarrow> (catch_failure t e res, hist')
         | (Inr output, hist') \<Rightarrow>
             (res\<lparr> removed := (removed res)(t := count_or (parsePrunedCount output)
                                                  (expectedCounts options t)),
                   reclaimedBytes := num_add (reclaimedBytes res) (parseReclaimedBytes output) \<rparr>,
              hist'))
      else if t = cache then
        (case dockerPrune rt t filterUntil False hist of
           (Inl e, hist') \<Rightarrow> (catch_failure t e res, hist')
         | (Inr output, hist') \<Rightarrow>
             (res\<lparr> removed := (removed res)(t := count_or (parsePrunedCount output)
                                                  (expectedCounts options t)),
                   reclaimedBytes := num_add (reclaimedBytes res) (parseReclaimedBytes output) \<rparr>,
              hist'))
      else
        (case the (selectedIds options) t of
           None \<Rightarrow> (res, hist)
         | Some ids \<Rightarrow>
             if \<not> 0 < length ids then (res, hist)
             else
               (case (case t of
                        containers \<Rightarrow> dockerRemoveContainers rt ids hist
                      | images \<Rightarrow> dockerRemoveImages rt ids hist
                      | volumes \<Rightarrow> dockerRemoveVolumes rt ids hist
                      | networks \<Rightarrow> dockerRemoveNetworks rt ids hist
                      | cache \<Rightarrow> (Inr [], hist)) of
                  (Inl e, hist') \<Rightarrow> (catch_failure t e res, hist')
                | (Inr output, hist') \<Rightarrow>
                    let res' = (if t = cache then res
                                else res\<lparr> removed := (removed res)(t := int (length ids)) \<rparr>)
                    in (case estimatedBytes options of
                          None \<Rightarrow> (res', hist')
                        | Some estimate \<Rightarrow>
                            (res'\<lparr> reclaimedBytes :=
                                     num_add (reclaimedBytes res') (num_or (estimate t) (Num 0)) \<rparr>,
                             hist')))))"

definition cleanResources :: "runtime \<Rightarrow> CleanOptions \<Rightarrow> calls \<Rightarrow> (thrown + CleanResult) \<times> calls" where
  "cleanResources rt options hist =
     (if dryRun options then (Inr no_result, hist)
      else
        (case filterUntilTimestamp rt (length hist) (olderThanMs options) of
           Inl e \<Rightarrow> (Inl e, hist)
         | Inr filterUntil \<Rightarrow>
             (case foldl (clean_step rt options filterUntil) (no_result, hist) (resources options) of
                (res, hist') \<Rightarrow> (Inr res, hist'))))"

text \<open>
  The second copy of clean.ts among the sources is the version without identifier-based
  removal: every resource type is pruned in bulk. It does not read \<open>selectedIds\<close> and
  \<open>estimatedBytes\<close>.
\<close>

definition clean_step_bulk ::
  "runtime \<Rightarrow> CleanOptions \<Rightarrow> string option \<Rightarrow> CleanResult \<times> calls \<Rightarrow> ResourceType
     \<Rightarrow> CleanResult \<times> calls" where
  "clean_step_bulk rt options filterUntil st t =
     (let res = fst st; hist = snd st in
      case dockerPrune rt t filterUntil (includeAllImages options \<and> t = images) hist of
        (Inl e, hist') \<Rightarrow> (catch_failure t e res, hist')
      | (Inr output, hist') \<Rightarrow>
          (res\<lparr> removed := (removed res)(t := count_or (parsePrunedCount output)
                                               (expectedCounts options t)),
                reclaimedBytes := num_add (reclaimedBytes res) (parseReclaimedBytes output) \<rparr>,
           hist'))"

definition cleanResources_bulk :: "runtime \<Rightarrow> CleanOptions \<Rightarrow> calls \<Rightarrow> (thrown + CleanResult) \<times> calls" where
  "cleanResources_bulk rt options hist =
     (if dryRun options then (Inr no_result, hist)
      else
        (case filterUntilTimestamp rt (length hist) (olderThanMs options) of
           Inl e \<Rightarrow> (Inl e, hist)
         | Inr filterUntil \<Rightarrow>
             (case foldl (clean_step_bulk rt options filterUntil) (no_result, hist)
                     (resources options) of
                (res, hist') \<Rightarrow> (Inr res, hist'))))"

section \<open>Notions used to state the properties\<close>

text \<open>
  The age filter as the specification words it: an item is retained when its \<open>createdAt\<close>
  is present, parses to a point in time, and that time is at or after the cutoff.
\<close>

definition retained_by_age :: "runtime \<Rightarrow> int \<Rightarrow> ResourceItem \<Rightarrow> bool" where
  "retained_by_age rt cutoff item =
     (case createdAt item of
        None \<Rightarrow> False
      | Some c \<Rightarrow> (case Date_parse rt c of None \<Rightarrow> False | Some created \<Rightarrow> cutoff \<le> created))"

text \<open>
  The cleanup loop, described from outside. \<open>step_cmd\<close> is the one docker command that
  a turn of the loop runs for a resource type (none when the identifier list is missing
  or empty); \<open>recorded_count\<close> and \<open>recorded_bytes\<close> are what the turn writes when the
  command returns \<open>output\<close>. An identifier-based removal runs
  \<open>docker container|image|volume rm -f ids\<close> or \<open>docker network rm ids\<close>.
\<close>

definition remove_args :: "ResourceType \<Rightarrow> string list" where
  "remove_args t =
     (case t of
        containers \<Rightarrow> [''container'', ''rm'', ''-f'']
      | images \<Rightarrow> [''image'', ''rm'', ''-f'']
      | volumes \<Rightarrow> [''volume'', ''rm'', ''-f'']
      | networks \<Rightarrow> [''network'', ''rm'']
      | cache \<Rightarrow> [])"

definition step_cmd :: "CleanOptions \<Rightarrow> string option \<Rightarrow> ResourceType \<Rightarrow> string list option" where
  "step_cmd options filterUntil t =
     (case selectedIds options of
        None \<Rightarrow> Some (prune_args t filterUntil (includeAllImages options \<and> t = images))
      | Some sel \<Rightarrow>
          if t = cache then Some (prune_args cache filterUntil False)
          else (case sel t of
                  None \<Rightarrow> None
                | Some ids \<Rightarrow> if ids = [] then None else Some (remove_args t @ ids)))"

definition identified :: "CleanOptions \<Rightarrow> ResourceType \<Rightarrow> bool" where
  "identified options t = (selectedIds options \<noteq> None \<and> t \<noteq> cache)"

definition recorded_count :: "CleanOptions \<Rightarrow> ResourceType \<Rightarrow> string \<Rightarrow> int" where
  "recorded_count options t output =
     (if identified options t then int (length (the (the (selectedIds options) t)))
      else count_or (parsePrunedCount output) (expectedCounts options t))"

definition recorded_bytes :: "CleanOptions \<Rightarrow> ResourceType \<Rightarrow> string \<Rightarrow> number" where
  "recorded_bytes options t output =
     (if identified options t
      then (case estimatedBytes options of None \<Rightarrow> Num 0 | Some estimate \<Rightarrow> num_or (estimate t) (Num 0))
      else parseReclaimedBytes output)"

text \<open>
  The commands of a whole run, each with its resource type, and the answers of docker
  to them when they are run in this order after the commands in \<open>hist\<close>.
\<close>

definition plan :: "CleanOptions \<Rightarrow> string option \<Rightarrow> ResourceType list \<Rightarrow> (ResourceType \<times> string list) list" where
  "plan options filterUntil ts =
     concat (map (\<lambda>t. case step_cmd options filterUntil t of None \<Rightarrow> [] | Some c \<Rightarrow> [(t, c)]) ts)"

fun run_trace :: "runtime \<Rightarrow> calls \<Rightarrow> (ResourceType \<times> string list) list
    \<Rightarrow> (ResourceType \<times> (thrown + string)) list" where
  "run_trace rt hist [] = []"
| "run_trace rt hist (tc # rest) =
     (fst tc, docker rt hist (snd tc)) # run_trace rt (hist @ [snd tc]) rest"

text \<open>
  The errors thrown, and the outputs returned, for one resource type in such a trace.
\<close>

fun errors_of :: "ResourceType \<Rightarrow> (ResourceType \<times> (thrown + string)) list \<Rightarrow> thrown list" where
  "errors_of t [] = []"
| "errors_of t ((t', Inl e) # tr) = (if t' = t then e # errors_of t tr else errors_of t tr)"
| "errors_of t ((t', Inr output) # tr) = errors_of t tr"

fun outputs_of :: "ResourceType \<Rightarrow> (ResourceType \<times> (thrown + string)) list \<Rightarrow> string list" where
  "outputs_of t [] = []"
| "outputs_of t ((t', Inl e) # tr) = outputs_of t tr"
| "outputs_of t ((t', Inr output) # tr) = (if t' = t then output # outputs_of t tr else outputs_of t tr)"

text \<open>
  The removed count of a resource type at the end: the count recorded for its last
  command that returned, and the count before the loop when none did.
\<close>

definition final_count :: "CleanOptions \<Rightarrow> ResourceType \<Rightarrow> int \<Rightarrow> string list \<Rightarrow> int" where
  "final_count options t before outs =
     (if outs = [] then before else recorded_count options t (last outs))"



text \<open>
  The parsed size of an item, and the notions in which the properties of the size
  selector are stated: a list is numeric when no size parses to \<open>NaN\<close>, and descending
  when each item's parsed size is \<open>>=\<close> that of every later item.
\<close>

definition bytes :: "ResourceItem \<Rightarrow> number" where
  "bytes item = parseDockerSize (size_f item)"

definition all_numeric :: "ResourceItem list \<Rightarrow> bool" where
  "all_numeric its = list_all (\<lambda>item. bytes item \<noteq> NaN) its"

definition size_rank :: "number \<Rightarrow> bool \<times> int" where
  "size_rank v = (case v of Num d \<Rightarrow> (True, - d) | PosInf \<Rightarrow> (False, 0) | _ \<Rightarrow> (True, 0))"

definition descending :: "ResourceItem list \<Rightarrow> bool" where
  "descending its = sorted_wrt (\<lambda>a b. num_ge (bytes a) (bytes b)) its"

fun num_lt :: "number \<Rightarrow> number \<Rightarrow> bool" where
  "num_lt (Num a) (Num b) = (a < b)"
| "num_lt NaN _ = False"
| "num_lt _ NaN = False"
| "num_lt _ NegInf = False"
| "num_lt PosInf _ = False"
| "num_lt _ _ = True"

text \<open>
  The running total of the cumulative-limit loop after a prefix of the items.
\<close>

definition run_sum :: "number \<Rightarrow> ResourceItem list \<Rightarrow> number" where
  "run_sum start its = foldl (\<lambda>sum item. num_add sum (parseDockerSize (size_f item))) start its"







text \<open>The rational that a pair stands for, as a real number.\<close>

definition rv :: "nat \<times> nat \<Rightarrow> real" where
  "rv v = real (fst v) / real (snd v)"

section \<open>Sample inputs\<close>

text \<open>
  A clock, a date parser that knows two dates, and a docker that answers the prune of
  containers with a count and a size, fails on the prune of images with an \<open>Error\<close>,
  reports a count of zero for volumes, and fails on the prune of networks with a thrown
  string.
\<close>

definition sample_parse :: "string \<Rightarrow> int option" where
  "sample_parse s =
     map_of [(''2024-01-01T00:00:00.000Z'', 1704067200000),
             (''2024-01-14T00:00:00.000Z'', 1705190400000)] s"

definition sample_iso :: "int \<Rightarrow> string" where
  "sample_iso t =
     (if t = 1704067200000 then ''2024-01-01T00:00:00.000Z''
      else if t = 1705190400000 then ''2024-01-14T00:00:00.000Z''
      else ''2024-01-08T00:00:00.000Z'')"

definition sample_docker :: "calls \<Rightarrow> string list \<Rightarrow> thrown + string" where
  "sample_docker hist args =
     (if take 2 args = [''container'', ''prune'']
      then Inr (''Deleted Containers: 3'' @ [CHR 0x0A] @ ''Total reclaimed space: 150 MB'')
      else if take 2 args = [''image'', ''prune''] then Inl (JsError ''Images error'')
      else if take 2 args = [''volume'', ''prune''] then Inr ''Deleted Volumes: 0''
      else if take 2 args = [''network'', ''prune''] then Inl (JsValue ''String error'')
      else if take 2 args = [''container'', ''rm''] then Inr ''abc123''
      else Inr [])"

definition sample_rt :: runtime where
  "sample_rt =
     \<lparr> Date_now = (\<lambda>n. 1705276800000 + int n), Date_parse = sample_parse,
       toISOString = sample_iso, JSON_parse = (\<lambda>l. Inr [(''Reclaimable'', l)]),
       docker = sample_docker \<rparr>"

definition sample_clean :: CleanOptions where
  "sample_clean =
     \<lparr> resources = [containers, images, volumes], olderThanMs = None, dryRun = False,
       includeAllImages = False,
       expectedCounts = (\<lambda>t. if t = containers then 5 else if t = images then 10 else 2),
       selectedIds = None, estimatedBytes = None \<rparr>"

definition sample_item :: "string \<Rightarrow> string \<Rightarrow> string option \<Rightarrow> ResourceItem" where
  "sample_item n s c =
     \<lparr> id_f = n, name = n, size_f = Some s, createdAt = c, lastUsed = None, raw = None \<rparr>"

definition sample_aged :: "ResourceItem list" where
  "sample_aged =
     [sample_item ''old'' ''150 MB'' (Some ''2024-01-01T00:00:00.000Z''),
      sample_item ''undated'' ''1 MB'' None,
      sample_item ''recent'' ''50 MB'' (Some ''2024-01-14T00:00:00.000Z''),
      sample_item ''garbled'' ''2 MB'' (Some ''yesterday'')]"

text \<open>
  A request on the identifier path: two containers selected, no image, an estimate
  of 800 MB for the containers.
\<close>

definition sample_ids :: CleanOptions where
  "sample_ids =
     sample_clean\<lparr> resources := [containers, images, cache],
       selectedIds := Some (\<lambda>t. if t = containers then Some [''abc123'', ''def456'']
                                else if t = images then Some [] else None),
       estimatedBytes := Some (\<lambda>t. if t = containers then Num 800000000 else Num 0) \<rparr>"










text \<open>
  Three items of 100 MB, 500 MB and 300 MB, and a list whose first size parses to
  \<open>NaN\<close>.
\<close>

definition sample_sizes :: "ResourceItem list" where
  "sample_sizes =
     [sample_item ''a'' ''100MB'' None, sample_item ''b'' ''500 MB'' None,
      sample_item ''c'' ''300MB'' None]"

definition sample_nan :: "ResourceItem list" where
  "sample_nan = [sample_item ''x'' ''1.2.3MB'' None, sample_item ''y'' ''5MB'' None]"

section \<open>Properties\<close>

subsection \<open>Evaluating the definitions\<close>

lemma bit_length_0 [simp]: "bit_length 0 = 0"
  by (simp add: bit_length.simps)

lemma bit_length_Suc_0 [simp]: "bit_length (Suc 0) = 1"
  by (simp add: bit_length.simps)

lemma bit_length_1 [simp]: "bit_length 1 = 1"
  by (simp add: bit_length.simps)

lemma bit_length_double: "0 < n \<Longrightarrow> bit_length (2 * n) = Suc (bit_length n)"
  by (subst bit_length.simps) simp

lemma bit_length_double1: "bit_length (2 * n + 1) = Suc (bit_length n)"
  by (subst bit_length.simps) simp

lemma bit_length_Bit0 [simp]: "bit_length (numeral (Num.Bit0 k)) = Suc (bit_length (numeral k))"
  using bit_length_double [of "numeral k"] by (simp add: numeral_Bit0 mult_2)

lemma bit_length_Bit1 [simp]: "bit_length (numeral (Num.Bit1 k)) = Suc (bit_length (numeral k))"
  using bit_length_double1 [of "numeral k"] by (simp add: numeral_Bit1 mult_2)

lemmas char_eval = is_space_def is_digit_def is_mag_def is_alpha_def ascii_lower_def
  toLowerCase_def trim_def digit_val_def digits_val_def

lemmas double_eval = to_double_def floor_log2_def shift_def round_half_even_def Let_def

lemmas size_eval = parseDockerSize_def str_truthy_def size_re_def plus1_def unit_alts_def
  multipliers_def round_scaled_def Number_dec_def double_eval

lemmas count_eval = parsePrunedCount_def deleted_re_def trailing_re_def plus1_def

lemmas bytes_eval = parseReclaimedBytes_def amount_re_def

subsection \<open>Dry run\<close>

text \<open>
  C4. A dry run returns at once: every removed count is zero, every failure list is
  empty, no byte is reclaimed, and the list of docker commands run is unchanged, so that
  no prune or removal command is issued. This holds for both versions of
  \<open>cleanResources\<close> and for every list of resource types.
\<close>

theorem dry_run_no_effect:
  assumes "dryRun options"
  shows "cleanResources rt options hist
           = (Inr \<lparr> removed = (\<lambda>t. 0), failures = (\<lambda>t. []), reclaimedBytes = Num 0 \<rparr>, hist)
       \<and> cleanResources_bulk rt options hist
           = (Inr \<lparr> removed = (\<lambda>t. 0), failures = (\<lambda>t. []), reclaimedBytes = Num 0 \<rparr>, hist)"
  using assms by (simp add: cleanResources_def cleanResources_bulk_def no_result_def)

theorem dry_run_no_effect_witness:
  "dryRun (sample_clean\<lparr>dryRun := True\<rparr>)
   \<and> cleanResources sample_rt (sample_clean\<lparr>dryRun := True\<rparr>) []
       = (Inr \<lparr> removed = (\<lambda>t. 0), failures = (\<lambda>t. []), reclaimedBytes = Num 0 \<rparr>, [])
   \<and> cleanResources_bulk sample_rt (sample_clean\<lparr>dryRun := True\<rparr>) []
       = (Inr \<lparr> removed = (\<lambda>t. 0), failures = (\<lambda>t. []), reclaimedBytes = Num 0 \<rparr>, [])"
  using dry_run_no_effect [of "sample_clean\<lparr>dryRun := True\<rparr>" sample_rt "[]"]
  by (simp add: sample_clean_def)

subsection \<open>Age filter\<close>

text \<open>
  C1 as stated fails for the threshold \<open>0\<close>: it is a supplied threshold, but the filter
  tests \<open>!olderThanMs\<close>, so an item without \<open>createdAt\<close> is kept.
\<close>

theorem age_filter_zero_counterexample:
  "createdAt (sample_item ''a'' ''1MB'' None) = None
   \<and> applyOlderThan sample_rt 0 [sample_item ''a'' ''1MB'' None] (Some 0)
       = [sample_item ''a'' ''1MB'' None]
   \<and> applyOlderThan sample_rt 0 [sample_item ''a'' ''1MB'' None] (Some 0)
       \<noteq> filter (retained_by_age sample_rt (Date_now sample_rt 0 - 0))
            [sample_item ''a'' ''1MB'' None]"
  by (simp add: applyOlderThan_def sample_item_def retained_by_age_def)

text \<open>
  C1, amended. For every list of items and every threshold other than zero, the age
  filter keeps exactly the items whose \<open>createdAt\<close> is present, parses, and is at or
  after \<open>now - threshold\<close>, in their order; without a threshold, or with the threshold
  zero, the list is returned unchanged. (\<open>Date.parse\<close> gives \<open>NaN\<close> for the empty
  string, which is the hypothesis.)
\<close>

theorem age_filter_retains:
  assumes "Date_parse rt [] = None"
  shows "(t \<noteq> 0 \<longrightarrow>
            applyOlderThan rt tick its (Some t)
              = filter (retained_by_age rt (Date_now rt tick - t)) its)
       \<and> applyOlderThan rt tick its None = its
       \<and> applyOlderThan rt tick its (Some 0) = its"
proof -
  have "(if \<not> str_truthy (createdAt item) then False
         else (case Date_parse rt (the (createdAt item)) of
                 None \<Rightarrow> False | Some created \<Rightarrow> c \<le> created))
        = retained_by_age rt c item" for item c
    using assms by (cases "createdAt item") (auto simp: retained_by_age_def str_truthy_def)
  then show ?thesis
    by (simp add: applyOlderThan_def)
qed

theorem age_filter_retains_witness:
  "Date_parse sample_rt [] = None
   \<and> applyOlderThan sample_rt 0 sample_aged (Some 604800000)
       = [sample_item ''recent'' ''50 MB'' (Some ''2024-01-14T00:00:00.000Z'')]
   \<and> applyOlderThan sample_rt 0 sample_aged None = sample_aged
   \<and> applyOlderThan sample_rt 0 sample_aged (Some 0) = sample_aged"
  using age_filter_retains [of sample_rt 604800000 0 sample_aged]
  by (simp add: sample_rt_def sample_parse_def sample_aged_def sample_item_def
      retained_by_age_def)

subsection \<open>The cleanup loop\<close>

lemma num_add_zero [simp]: "num_add r (Num 0) = r"
  by (cases r) simp_all

lemma clean_step_eq:
  "clean_step rt options fu (res, hist) t =
     (case step_cmd options fu t of
        None \<Rightarrow> (res, hist)
      | Some c \<Rightarrow>
          (case docker rt hist c of
             Inl e \<Rightarrow> (catch_failure t e res, hist @ [c])
           | Inr output \<Rightarrow>
               (res\<lparr> removed := (removed res)(t := recorded_count options t output),
                     reclaimedBytes := num_add (reclaimedBytes res) (recorded_bytes options t output) \<rparr>,
                hist @ [c])))"
proof (cases "selectedIds options")
  case None
  then show ?thesis
    by (simp add: clean_step_def step_cmd_def dockerPrune_def execDocker_def identified_def
        recorded_count_def recorded_bytes_def split: sum.splits)
next
  case (Some sel)
  show ?thesis
  proof (cases "t = cache")
    case True
    with Some show ?thesis
      by (simp add: clean_step_def step_cmd_def dockerPrune_def execDocker_def identified_def
          recorded_count_def recorded_bytes_def split: sum.splits)
  next
    case False
    with Some show ?thesis
      by (cases t; cases "sel t")
        (auto simp: clean_step_def step_cmd_def identified_def recorded_count_def
          recorded_bytes_def remove_args_def execDocker_def dockerRemoveContainers_def
          dockerRemoveImages_def dockerRemoveVolumes_def dockerRemoveNetworks_def
          split: sum.splits option.splits)
  qed
qed

lemma clean_step_bulk_eq:
  "clean_step_bulk rt options fu st t = clean_step rt (options\<lparr>selectedIds := None\<rparr>) fu st t"
  by (simp add: clean_step_bulk_def clean_step_def Let_def split: prod.splits sum.splits)

lemma cleanResources_bulk_eq:
  "cleanResources_bulk rt options hist = cleanResources rt (options\<lparr>selectedIds := None\<rparr>) hist"
proof -
  have "clean_step_bulk rt options fu = clean_step rt (options\<lparr>selectedIds := None\<rparr>) fu" for fu
    by (intro ext) (rule clean_step_bulk_eq)
  then show ?thesis
    by (simp add: cleanResources_bulk_def cleanResources_def split: sum.splits prod.splits)
qed

lemma run_trace_append:
  "run_trace rt hist (xs @ ys) = run_trace rt hist xs @ run_trace rt (hist @ map snd xs) ys"
  by (induction xs arbitrary: hist) simp_all

lemma errors_of_append: "errors_of t (xs @ ys) = errors_of t xs @ errors_of t ys"
  by (induction t xs rule: errors_of.induct) simp_all

lemma outputs_of_append: "outputs_of t (xs @ ys) = outputs_of t xs @ outputs_of t ys"
  by (induction t xs rule: outputs_of.induct) simp_all

lemma plan_snoc:
  "plan options fu (ts @ [t]) =
     plan options fu ts @ (case step_cmd options fu t of None \<Rightarrow> [] | Some c \<Rightarrow> [(t, c)])"
  by (simp add: plan_def)

lemma clean_fold:
  "foldl (clean_step rt options fu) (res0, hist0) ts = (res, hist1) \<Longrightarrow>
     hist1 = hist0 @ map snd (plan options fu ts)
   \<and> (\<forall>t. failures res t
          = failures res0 t
            @ map error_text (errors_of t (run_trace rt hist0 (plan options fu ts))))
   \<and> (\<forall>t. removed res t
          = final_count options t (removed res0 t)
              (outputs_of t (run_trace rt hist0 (plan options fu ts))))"
proof (induction ts arbitrary: res hist1 rule: rev_induct)
  case Nil
  then show ?case by (simp add: plan_def final_count_def)
next
  case (snoc t ts)
  obtain res' hist' where mid: "foldl (clean_step rt options fu) (res0, hist0) ts = (res', hist')"
    by (cases "foldl (clean_step rt options fu) (res0, hist0) ts") simp
  note ih = snoc.IH [OF mid]
  from snoc.prems mid have step: "clean_step rt options fu (res', hist') t = (res, hist1)"
    by simp
  show ?case
  proof (cases "step_cmd options fu t")
    case None
    with step ih show ?thesis
      by (simp add: clean_step_eq plan_snoc)
  next
    case (Some c)
    from ih have hist': "hist' = hist0 @ map snd (plan options fu ts)" by simp
    show ?thesis
    proof (cases "docker rt hist' c")
      case (Inl e)
      with step Some have "res = catch_failure t e res'" "hist1 = hist' @ [c]"
        by (simp_all add: clean_step_eq)
      with ih Some Inl hist' show ?thesis
        by (simp add: plan_snoc run_trace_append errors_of_append outputs_of_append
            catch_failure_def)
    next
      case (Inr out)
      with step Some have
        "res = res'\<lparr> removed := (removed res')(t := recorded_count options t out),
                      reclaimedBytes := num_add (reclaimedBytes res')
                                           (recorded_bytes options t out) \<rparr>"
        "hist1 = hist' @ [c]"
        by (simp_all add: clean_step_eq)
      with ih Some Inr hist' show ?thesis
        by (simp add: plan_snoc run_trace_append errors_of_append outputs_of_append
            final_count_def)
    qed
  qed
qed

lemma sample_count_containers:
  "parsePrunedCount (''Deleted Containers: 3'' @ [CHR 0x0A] @ ''Total reclaimed space: 150 MB'') = 3"
  by (simp add: count_eval char_eval)

lemma sample_count_volumes: "parsePrunedCount ''Deleted Volumes: 0'' = 0"
  by (simp add: count_eval char_eval)



lemma sample_bytes_volumes: "parseReclaimedBytes ''Deleted Volumes: 0'' = Num 0"
  by (simp add: bytes_eval size_eval char_eval)

lemma plan_bulk:
  "selectedIds options = None \<Longrightarrow>
   plan options fu ts = map (\<lambda>t. (t, prune_args t fu (includeAllImages options \<and> t = images))) ts"
  by (induction ts) (simp_all add: plan_def step_cmd_def)

text \<open>
  C5. When the run is not a dry run (and the cutoff is a valid date), \<open>cleanResources\<close>
  returns a result whatever the docker commands do: the commands of all requested
  types are run in request order (one prune per type on the bulk path), whether or not
  earlier ones threw; the failure list of each type holds exactly the texts of the
  errors thrown by the commands of that type, in order, the text of an \<open>Error\<close> being
  its message and the text of any other thrown value the string it converts to; and
  the removed count of each type is the one recorded for its last command that
  returned, untouched by the failures of other types. The version of the file without
  identifier-based removal is the same function with \<open>selectedIds\<close> absent.
\<close>

theorem failures_do_not_abort:
  assumes "\<not> dryRun options"
    and "filterUntilTimestamp rt (length hist) (olderThanMs options) = Inr fu"
  shows "\<exists>res.
           cleanResources rt options hist
             = (Inr res, hist @ map snd (plan options fu (resources options)))
         \<and> (\<forall>t. failures res t
                = map (\<lambda>e. case e of JsError message \<Rightarrow> message | JsValue shown \<Rightarrow> shown)
                    (errors_of t (run_trace rt hist (plan options fu (resources options)))))
         \<and> (\<forall>t. removed res t
                = final_count options t 0
                    (outputs_of t (run_trace rt hist (plan options fu (resources options)))))
         \<and> (selectedIds options = None \<longrightarrow>
               map fst (plan options fu (resources options)) = resources options)
         \<and> cleanResources_bulk rt options hist
             = cleanResources rt (options\<lparr>selectedIds := None\<rparr>) hist"
proof -
  obtain res hist1 where
    run: "foldl (clean_step rt options fu) (no_result, hist) (resources options) = (res, hist1)"
    by (cases "foldl (clean_step rt options fu) (no_result, hist) (resources options)") simp
  from clean_fold [OF run]
  have hist1: "hist1 = hist @ map snd (plan options fu (resources options))"
    and fl: "\<forall>t. failures res t
                = map error_text
                    (errors_of t (run_trace rt hist (plan options fu (resources options))))"
    and rm: "\<forall>t. removed res t
                = final_count options t 0
                    (outputs_of t (run_trace rt hist (plan options fu (resources options))))"
    by (simp_all add: no_result_def)
  from assms run hist1
  have "cleanResources rt options hist
          = (Inr res, hist @ map snd (plan options fu (resources options)))"
    by (simp add: cleanResources_def)
  moreover have "selectedIds options = None \<longrightarrow>
      map fst (plan options fu (resources options)) = resources options"
    by (simp add: plan_bulk comp_def)
  moreover have "error_text = (\<lambda>e. case e of JsError message \<Rightarrow> message | JsValue shown \<Rightarrow> shown)"
    by (rule ext) (simp add: error_text_def)
  ultimately show ?thesis
    using fl rm by (intro exI [of _ res]) (simp add: cleanResources_bulk_eq)
qed

theorem failures_do_not_abort_witness:
  "\<not> dryRun (sample_clean\<lparr>resources := [containers, images, networks, volumes]\<rparr>)
   \<and> filterUntilTimestamp sample_rt (length ([] :: calls))
         (olderThanMs (sample_clean\<lparr>resources := [containers, images, networks, volumes]\<rparr>))
       = Inr None
   \<and> (\<exists>res.
         cleanResources sample_rt
             (sample_clean\<lparr>resources := [containers, images, networks, volumes]\<rparr>) []
           = (Inr res, [[''container'', ''prune'', ''-f''], [''image'', ''prune'', ''-f''],
                        [''network'', ''prune'', ''-f''], [''volume'', ''prune'', ''-f'', ''-a'']])
       \<and> failures res containers = [] \<and> failures res images = [''Images error'']
       \<and> failures res networks = [''String error''] \<and> failures res volumes = []
       \<and> removed res containers = 3 \<and> removed res images = 0
       \<and> removed res networks = 0 \<and> removed res volumes = 2)"
proof -
  define request where
    "request = sample_clean\<lparr>resources := [containers, images, networks, volumes]\<rparr>"
  have a: "\<not> dryRun request" by (simp add: request_def sample_clean_def)
  have b: "filterUntilTimestamp sample_rt (length ([] :: calls)) (olderThanMs request) = Inr None"
    by (simp add: filterUntilTimestamp_def request_def sample_clean_def)
  have p: "plan request None (resources request)
      = [(containers, [''container'', ''prune'', ''-f'']), (images, [''image'', ''prune'', ''-f'']),
         (networks, [''network'', ''prune'', ''-f'']),
         (volumes, [''volume'', ''prune'', ''-f'', ''-a''])]"
    by (simp add: plan_def step_cmd_def request_def sample_clean_def prune_args_def until_args_def
        str_truthy_def)
  have t: "run_trace sample_rt [] (plan request None (resources request))
      = [(containers, Inr (''Deleted Containers: 3'' @ [CHR 0x0A] @ ''Total reclaimed space: 150 MB'')),
         (images, Inl (JsError ''Images error'')), (networks, Inl (JsValue ''String error'')),
         (volumes, Inr ''Deleted Volumes: 0'')]"
    unfolding p by (simp add: sample_rt_def sample_docker_def)
  have c: "recorded_count request containers
             (''Deleted Containers: 3'' @ [CHR 0x0A] @ ''Total reclaimed space: 150 MB'') = 3"
    using sample_count_containers
    by (simp add: recorded_count_def identified_def request_def sample_clean_def count_or_def)
  have v: "recorded_count request volumes ''Deleted Volumes: 0'' = 2"
    using sample_count_volumes
    by (simp add: recorded_count_def identified_def request_def sample_clean_def count_or_def)
  from failures_do_not_abort [OF a b] obtain res where
    r: "cleanResources sample_rt request []
          = (Inr res, [] @ map snd (plan request None (resources request)))"
    and f: "\<forall>t. failures res t
          = map (\<lambda>e. case e of JsError message \<Rightarrow> message | JsValue shown \<Rightarrow> shown)
              (errors_of t (run_trace sample_rt [] (plan request None (resources request))))"
    and m: "\<forall>t. removed res t
          = final_count request t 0
              (outputs_of t (run_trace sample_rt [] (plan request None (resources request))))"
    by blast
  from r have "cleanResources sample_rt request []
           = (Inr res, [[''container'', ''prune'', ''-f''], [''image'', ''prune'', ''-f''],
                        [''network'', ''prune'', ''-f''], [''volume'', ''prune'', ''-f'', ''-a'']])"
    unfolding p by simp
  moreover from f have "failures res containers = []" "failures res images = [''Images error'']"
    "failures res networks = [''String error'']" "failures res volumes = []"
    unfolding t by simp_all
  moreover from m c v have "removed res containers = 3" "removed res images = 0"
    "removed res networks = 0" "removed res volumes = 2"
    unfolding t by (simp_all add: final_count_def del: append.simps)
  ultimately show ?thesis using a b unfolding request_def by blast
qed




text \<open>
  C7. On the identifier path (\<open>selectedIds\<close> supplied), for every type but cache: a
  missing or empty identifier list changes nothing and runs no command; a non-empty
  list runs the removal command \<open>remove_args t @ ids\<close>, and when that returns, whatever
  its output, the removed count is the number of identifiers and the reclaimed bytes
  grow by the scan-time estimate of the type (by 0 when no estimates were passed or the
  estimate is falsy); when it throws, the failure is recorded as on the bulk path.
  Cache is pruned in bulk exactly as without identifiers.
\<close>

theorem identifier_path:
  assumes "selectedIds options = Some sel"
  shows "(t \<noteq> cache \<and> (sel t = None \<or> sel t = Some []) \<longrightarrow>
            clean_step rt options fu (res, hist) t = (res, hist))
       \<and> (t \<noteq> cache \<and> sel t = Some ids \<and> ids \<noteq> [] \<longrightarrow>
            clean_step rt options fu (res, hist) t
              = (case docker rt hist (remove_args t @ ids) of
                   Inl e \<Rightarrow> (catch_failure t e res, hist @ [remove_args t @ ids])
                 | Inr out \<Rightarrow>
                     (res\<lparr> removed := (removed res)(t := int (length ids)),
                           reclaimedBytes :=
                             num_add (reclaimedBytes res)
                               (case estimatedBytes options of
                                  None \<Rightarrow> Num 0
                                | Some estimate \<Rightarrow> num_or (estimate t) (Num 0)) \<rparr>,
                      hist @ [remove_args t @ ids])))
       \<and> clean_step rt options fu (res, hist) cache
           = clean_step_bulk rt options fu (res, hist) cache"
proof -
  have "clean_step rt options fu (res, hist) cache = clean_step_bulk rt options fu (res, hist) cache"
    using assms
    by (simp add: clean_step_def clean_step_bulk_def Let_def)
  then show ?thesis
    using assms
    by (auto simp: clean_step_eq step_cmd_def recorded_count_def recorded_bytes_def
        identified_def split: sum.splits)
qed

theorem identifier_path_witness:
  "selectedIds sample_ids
     = Some (\<lambda>t. if t = containers then Some [''abc123'', ''def456'']
                  else if t = images then Some [] else None)
   \<and> clean_step sample_rt sample_ids None (no_result, []) images = (no_result, [])
   \<and> clean_step sample_rt sample_ids None (no_result, []) volumes = (no_result, [])
   \<and> clean_step sample_rt sample_ids None (no_result, []) containers
       = (no_result\<lparr> removed := (removed no_result)(containers := 2),
                      reclaimedBytes := Num 800000000 \<rparr>,
          [[''container'', ''rm'', ''-f'', ''abc123'', ''def456'']])
   \<and> clean_step sample_rt sample_ids None (no_result, []) cache
       = clean_step_bulk sample_rt sample_ids None (no_result, []) cache"
proof -
  let ?sel = "\<lambda>t. if t = containers then Some [''abc123'', ''def456'']
                  else if t = images then Some [] else None"
  have s: "selectedIds sample_ids = Some ?sel"
    by (simp add: sample_ids_def)
  have d: "docker sample_rt [] (remove_args containers @ [''abc123'', ''def456'']) = Inr ''abc123''"
    by (simp add: remove_args_def sample_rt_def sample_docker_def)
  have e: "estimatedBytes sample_ids
      = Some (\<lambda>t. if t = containers then Num 800000000 else Num 0)"
    by (simp add: sample_ids_def)
  from identifier_path [OF s, where t = images and rt = sample_rt and fu = None
      and res = no_result and hist = "[]"]
  have 1: "clean_step sample_rt sample_ids None (no_result, []) images = (no_result, [])"
    by simp
  from identifier_path [OF s, where t = volumes and rt = sample_rt and fu = None
      and res = no_result and hist = "[]"]
  have 2: "clean_step sample_rt sample_ids None (no_result, []) volumes = (no_result, [])"
    by simp
  from identifier_path [OF s, where t = containers and ids = "[''abc123'', ''def456'']"
      and rt = sample_rt and fu = None and res = no_result and hist = "[]"]
  have 3: "clean_step sample_rt sample_ids None (no_result, []) containers
       = (no_result\<lparr> removed := (removed no_result)(containers := 2),
                      reclaimedBytes := Num 800000000 \<rparr>,
          [[''container'', ''rm'', ''-f'', ''abc123'', ''def456'']])"
    by (simp add: d e num_or_def num_truthy_def) (simp add: remove_args_def no_result_def)
  from identifier_path [OF s, where t = images and rt = sample_rt and fu = None
      and res = no_result and hist = "[]"]
  have 4: "clean_step sample_rt sample_ids None (no_result, []) cache
       = clean_step_bulk sample_rt sample_ids None (no_result, []) cache"
    by simp
  from s 1 2 3 4 show ?thesis by simp
qed

text \<open>
  C9. The threshold \<open>0\<close> behaves as no threshold: \<open>applyOlderThan\<close> returns its input,
  \<open>filterUntilTimestamp\<close> returns \<open>undefined\<close>, both versions of \<open>cleanResources\<close> do
  exactly what they do without a threshold, and the prune commands of a bulk run carry
  no \<open>--filter\<close> argument.
\<close>

theorem zero_threshold_is_no_threshold:
  "applyOlderThan rt tick its (Some 0) = its
   \<and> applyOlderThan rt tick its (Some 0) = applyOlderThan rt tick its None
   \<and> filterUntilTimestamp rt tick (Some 0) = Inr None
   \<and> cleanResources rt (options\<lparr>olderThanMs := Some 0\<rparr>) hist
       = cleanResources rt (options\<lparr>olderThanMs := None\<rparr>) hist
   \<and> cleanResources_bulk rt (options\<lparr>olderThanMs := Some 0\<rparr>) hist
       = cleanResources_bulk rt (options\<lparr>olderThanMs := None\<rparr>) hist
   \<and> (\<not> dryRun options \<longrightarrow>
         snd (cleanResources_bulk rt (options\<lparr>olderThanMs := Some 0\<rparr>) hist)
           = hist @ map (\<lambda>t. prune_args t None (includeAllImages options \<and> t = images))
                     (resources options))
   \<and> (\<forall>t b. ''--filter'' \<notin> set (prune_args t None b))"
proof -
  have f: "filterUntilTimestamp rt n (Some 0) = Inr None" for n
    by (simp add: filterUntilTimestamp_def)
  have g: "filterUntilTimestamp rt n None = Inr None" for n
    by (simp add: filterUntilTimestamp_def)
  have s: "clean_step rt (options\<lparr>olderThanMs := Some 0\<rparr>) fu
             = clean_step rt (options\<lparr>olderThanMs := None\<rparr>) fu" for fu
  proof (intro ext)
    fix st :: "CleanResult \<times> calls" and t
    show "clean_step rt (options\<lparr>olderThanMs := Some 0\<rparr>) fu st t
            = clean_step rt (options\<lparr>olderThanMs := None\<rparr>) fu st t"
    proof (cases st)
      case (Pair res hist0)
      have "step_cmd (options\<lparr>olderThanMs := Some 0\<rparr>) fu t
              = step_cmd (options\<lparr>olderThanMs := None\<rparr>) fu t"
        by (simp add: step_cmd_def split: option.splits)
      moreover have "recorded_count (options\<lparr>olderThanMs := Some 0\<rparr>) t out
              = recorded_count (options\<lparr>olderThanMs := None\<rparr>) t out" for out
        by (simp add: recorded_count_def identified_def)
      moreover have "recorded_bytes (options\<lparr>olderThanMs := Some 0\<rparr>) t out
              = recorded_bytes (options\<lparr>olderThanMs := None\<rparr>) t out" for out
        by (simp add: recorded_bytes_def identified_def)
      ultimately show ?thesis
        using Pair by (simp add: clean_step_eq split: option.splits sum.splits)
    qed
  qed
  have sb: "clean_step_bulk rt (options\<lparr>olderThanMs := Some 0\<rparr>) fu
             = clean_step_bulk rt (options\<lparr>olderThanMs := None\<rparr>) fu" for fu
    by (intro ext) (simp add: clean_step_bulk_def Let_def split: prod.splits sum.splits)
  have c: "cleanResources rt (options\<lparr>olderThanMs := Some 0\<rparr>) hist
       = cleanResources rt (options\<lparr>olderThanMs := None\<rparr>) hist"
    by (simp add: cleanResources_def f g s)
  have cb: "cleanResources_bulk rt (options\<lparr>olderThanMs := Some 0\<rparr>) hist
       = cleanResources_bulk rt (options\<lparr>olderThanMs := None\<rparr>) hist"
    by (simp add: cleanResources_bulk_def f g sb)
  have l: "snd (cleanResources_bulk rt (options\<lparr>olderThanMs := Some 0\<rparr>) hist)
           = hist @ map (\<lambda>t. prune_args t None (includeAllImages options \<and> t = images))
                     (resources options)" if nd: "\<not> dryRun options"
  proof -
    let ?o = "options\<lparr>olderThanMs := Some 0, selectedIds := None\<rparr>"
    obtain res hist1 where
      run: "foldl (clean_step rt ?o None) (no_result, hist) (resources ?o) = (res, hist1)"
      by (cases "foldl (clean_step rt ?o None) (no_result, hist) (resources ?o)") simp
    from clean_fold [OF run] have "hist1 = hist @ map snd (plan ?o None (resources ?o))"
      by simp
    then have "hist1 = hist @ map (\<lambda>t. prune_args t None (includeAllImages options \<and> t = images))
                     (resources options)"
      by (simp add: plan_bulk comp_def)
    moreover have "cleanResources_bulk rt (options\<lparr>olderThanMs := Some 0\<rparr>) hist = (Inr res, hist1)"
      using nd run by (simp add: cleanResources_bulk_eq cleanResources_def f)
    ultimately show ?thesis by simp
  qed
  have n: "''--filter'' \<notin> set (prune_args t None b)" for t b
    by (cases t) (simp_all add: prune_args_def until_args_def str_truthy_def)
  show ?thesis
    using f c cb l n by (simp add: applyOlderThan_def)
qed

theorem zero_threshold_is_no_threshold_witness:
  "\<not> dryRun sample_clean
   \<and> applyOlderThan sample_rt 0 sample_aged (Some 0) = sample_aged
   \<and> filterUntilTimestamp sample_rt 0 (Some 0) = Inr None
   \<and> snd (cleanResources_bulk sample_rt (sample_clean\<lparr>olderThanMs := Some 0\<rparr>) [])
       = [[''container'', ''prune'', ''-f''], [''image'', ''prune'', ''-f''],
          [''volume'', ''prune'', ''-f'', ''-a'']]"
proof -
  have a: "\<not> dryRun sample_clean" by (simp add: sample_clean_def)
  have m: "map (\<lambda>t. prune_args t None (includeAllImages sample_clean \<and> t = images))
             (resources sample_clean)
      = [[''container'', ''prune'', ''-f''], [''image'', ''prune'', ''-f''],
          [''volume'', ''prune'', ''-f'', ''-a'']]"
    by (simp add: sample_clean_def prune_args_def until_args_def str_truthy_def)
  note z = zero_threshold_is_no_threshold [of sample_rt 0 sample_aged sample_clean "[]"]
  from z have 1: "applyOlderThan sample_rt 0 sample_aged (Some 0) = sample_aged"
    by blast
  from z have 2: "filterUntilTimestamp sample_rt 0 (Some 0) = Inr None"
    by blast
  from z a have 3: "snd (cleanResources_bulk sample_rt (sample_clean\<lparr>olderThanMs := Some 0\<rparr>) [])
      = [] @ map (\<lambda>t. prune_args t None (includeAllImages sample_clean \<and> t = images))
                 (resources sample_clean)"
    by blast
  from a 1 2 3 m show ?thesis by simp
qed

subsection \<open>Scan totals\<close>












subsection \<open>Size selection\<close>

lemma parseDockerSize_nonneg: "parseDockerSize s = Num v \<Longrightarrow> 0 \<le> v"
  by (auto simp: parseDockerSize_def round_scaled_def Let_def
      split: if_splits option.splits prod.splits)

lemma parseDockerSize_not_NegInf: "parseDockerSize s \<noteq> NegInf"
  by (auto simp: parseDockerSize_def round_scaled_def Let_def
      split: if_splits option.splits prod.splits)

lemma bytes_cases:
  assumes "bytes x \<noteq> NaN"
  obtains a where "bytes x = Num a" | "bytes x = PosInf"
  using assms parseDockerSize_not_NegInf [of "size_f x"]
  by (cases "bytes x") (simp_all add: bytes_def)

lemma length_insert_cmp [simp]: "length (insert_cmp c x ys) = Suc (length ys)"
  by (induction ys) simp_all

lemma length_sort_cmp [simp]: "length (sort_cmp c xs) = length xs"
  by (induction xs) (simp_all add: sort_cmp_def)

lemma mset_insert_cmp [simp]: "mset (insert_cmp c x ys) = add_mset x (mset ys)"
  by (induction ys) simp_all

lemma mset_sort_cmp [simp]: "mset (sort_cmp c xs) = mset xs"
  by (induction xs) (simp_all add: sort_cmp_def)

lemma insert_cmp_numeric:
  assumes "bytes x \<noteq> NaN" and "\<forall>y\<in>set ys. bytes y \<noteq> NaN"
  shows "insert_cmp compare_size x ys = insort_key (\<lambda>i. size_rank (bytes i)) x ys"
  using assms(2)
proof (induction ys)
  case Nil
  show ?case by simp
next
  case (Cons y ys)
  from Cons.prems have y: "bytes y \<noteq> NaN" by simp
  have c: "compare_size x y = num_sub (bytes y) (bytes x)"
    by (simp add: compare_size_def bytes_def Let_def)
  have "cmp_positive (compare_size x y) = (\<not> size_rank (bytes x) \<le> size_rank (bytes y))"
    using assms(1) y unfolding c
    by (elim bytes_cases) (auto simp: cmp_positive_def size_rank_def)
  with Cons show ?case
    by simp
qed

lemma sortBySize_numeric:
  "all_numeric its \<Longrightarrow> sortBySize its = sort_key (\<lambda>i. size_rank (bytes i)) its"
proof (induction its)
  case Nil
  show ?case by (simp add: sortBySize_def sort_cmp_def)
next
  case (Cons x xs)
  then have ih: "sort_cmp compare_size xs = sort_key (\<lambda>i. size_rank (bytes i)) xs"
    and x: "bytes x \<noteq> NaN" and xs: "\<forall>y\<in>set xs. bytes y \<noteq> NaN"
    by (simp_all add: all_numeric_def sortBySize_def list_all_iff)
  from xs have "\<forall>y\<in>set (sort_key (\<lambda>i. size_rank (bytes i)) xs). bytes y \<noteq> NaN"
    by simp
  with x ih show ?case
    by (simp add: sortBySize_def sort_cmp_def insert_cmp_numeric)
qed

lemma descending_sortBySize:
  assumes "all_numeric its"
  shows "descending (sortBySize its)"
proof -
  let ?k = "\<lambda>i. size_rank (bytes i)"
  have "sorted (map ?k (sort_key ?k its))" by (rule sorted_sort_key)
  then have "sorted_wrt (\<lambda>a b. ?k a \<le> ?k b) (sort_key ?k its)"
    by (simp add: sorted_map)
  moreover have "num_ge (bytes a) (bytes b)"
    if "a \<in> set (sort_key ?k its)" "b \<in> set (sort_key ?k its)" "?k a \<le> ?k b" for a b
  proof -
    from that assms have "bytes a \<noteq> NaN" "bytes b \<noteq> NaN"
      by (simp_all add: all_numeric_def list_all_iff)
    then show ?thesis
      using that(3) by (elim bytes_cases) (auto simp: size_rank_def)
  qed
  ultimately have "sorted_wrt (\<lambda>a b. num_ge (bytes a) (bytes b)) (sort_key ?k its)"
    by (rule sorted_wrt_mono_rel [rotated])
  with assms show ?thesis
    by (simp add: descending_def sortBySize_numeric)
qed

lemma stable_sortBySize:
  assumes "all_numeric its"
  shows "filter (\<lambda>i. bytes i = v) (sortBySize its) = filter (\<lambda>i. bytes i = v) its"
proof (cases "v = NaN \<or> v = NegInf")
  case True
  have "bytes i \<noteq> v" if "i \<in> set its" for i
    using that assms True parseDockerSize_not_NegInf [of "size_f i"]
    by (auto simp: all_numeric_def list_all_iff bytes_def)
  then have "filter (\<lambda>i. bytes i = v) its = []"
    by (simp add: filter_empty_conv)
  moreover from \<open>\<And>i. i \<in> set its \<Longrightarrow> bytes i \<noteq> v\<close> assms
  have "filter (\<lambda>i. bytes i = v) (sortBySize its) = []"
    by (simp add: filter_empty_conv sortBySize_numeric)
  ultimately show ?thesis by simp
next
  case False
  let ?k = "\<lambda>i. size_rank (bytes i)"
  have eq: "(bytes i = v) = (?k i = size_rank v)" if "i \<in> set its" for i
  proof -
    from that assms have "bytes i \<noteq> NaN"
      by (simp add: all_numeric_def list_all_iff)
    then show ?thesis
      using False by (elim bytes_cases; cases v) (auto simp: size_rank_def)
  qed
  have "filter (\<lambda>i. bytes i = v) (sort_key ?k its) = filter (\<lambda>i. ?k i = size_rank v) (sort_key ?k its)"
    by (rule filter_cong) (simp_all add: eq)
  also have "\<dots> = filter (\<lambda>i. ?k i = size_rank v) its"
    by (rule sort_key_stable)
  also have "\<dots> = filter (\<lambda>i. bytes i = v) its"
    by (rule filter_cong) (simp_all add: eq)
  finally show ?thesis
    using assms by (simp add: sortBySize_numeric)
qed

lemma sum_sizes_run_sum: "sum_sizes its = run_sum (Num 0) its"
  by (simp add: sum_sizes_def run_sum_def)

lemma run_sum_Cons [simp]:
  "run_sum start (x # xs) = run_sum (num_add start (parseDockerSize (size_f x))) xs"
  by (simp add: run_sum_def)

lemma run_sum_Nil [simp]: "run_sum start [] = start"
  by (simp add: run_sum_def)

lemma run_sum_snoc: "run_sum start (xs @ [x]) = num_add (run_sum start xs) (parseDockerSize (size_f x))"
  by (simp add: run_sum_def)

lemma select_loop_take:
  "\<exists>k\<le>length xs.
      select_loop limit sel tot xs = sel @ take k xs
    \<and> (xs \<noteq> [] \<longrightarrow> 0 < k)
    \<and> (k < length xs \<longrightarrow> num_ge (run_sum tot (take k xs)) (Num limit))
    \<and> (\<forall>j. 0 < j \<and> j < k \<longrightarrow> \<not> num_ge (run_sum tot (take j xs)) (Num limit))"
proof (induction xs arbitrary: sel tot)
  case Nil
  show ?case by simp
next
  case (Cons x xs)
  let ?tot = "num_add tot (parseDockerSize (size_f x))"
  show ?case
  proof (cases "num_ge ?tot (Num limit)")
    case True
    then show ?thesis
      by (intro exI [of _ 1]) (simp add: Let_def)
  next
    case False
    from Cons.IH [of "sel @ [x]" ?tot] obtain k where k: "k \<le> length xs"
      and r: "select_loop limit (sel @ [x]) ?tot xs = (sel @ [x]) @ take k xs"
      and c: "k < length xs \<longrightarrow> num_ge (run_sum ?tot (take k xs)) (Num limit)"
      and b: "\<forall>j. 0 < j \<and> j < k \<longrightarrow> \<not> num_ge (run_sum ?tot (take j xs)) (Num limit)"
      by blast
    have "\<not> num_ge (run_sum tot (take j (x # xs))) (Num limit)" if "0 < j" "j < Suc k" for j
    proof (cases j)
      case 0
      with that show ?thesis by simp
    next
      case (Suc j')
      show ?thesis
      proof (cases "j' = 0")
        case True
        with Suc False show ?thesis by simp
      next
        case False
        with Suc that b show ?thesis by simp
      qed
    qed
    with False k r c show ?thesis
      by (intro exI [of _ "Suc k"]) (simp add: Let_def)
  qed
qed

lemma run_sum_prefix:
  "run_sum (Num 0) (xs @ ys) = Num t \<Longrightarrow> \<exists>u. run_sum (Num 0) xs = Num u \<and> u \<le> t"
proof (induction ys arbitrary: t rule: rev_induct)
  case Nil
  then show ?case by simp
next
  case (snoc y ys)
  from snoc.prems
  have s: "num_add (run_sum (Num 0) (xs @ ys)) (parseDockerSize (size_f y)) = Num t"
    by (simp add: run_sum_snoc [symmetric])
  then obtain t' b where t': "run_sum (Num 0) (xs @ ys) = Num t'"
    and b: "parseDockerSize (size_f y) = Num b"
    by (cases "run_sum (Num 0) (xs @ ys)"; cases "parseDockerSize (size_f y)") simp_all
  from b have "0 \<le> b" by (rule parseDockerSize_nonneg)
  moreover from s t' b have "t = t' + b" by simp
  moreover from snoc.IH [OF t'] obtain u where "run_sum (Num 0) xs = Num u" "u \<le> t'" by blast
  ultimately show ?case by simp
qed

lemma run_sum_not_NegInf: "start \<noteq> NegInf \<Longrightarrow> run_sum start xs \<noteq> NegInf"
proof (induction xs arbitrary: start)
  case Nil
  then show ?case by simp
next
  case (Cons x xs)
  have "num_add start (parseDockerSize (size_f x)) \<noteq> NegInf"
    using Cons.prems parseDockerSize_not_NegInf [of "size_f x"]
    by (cases start; cases "parseDockerSize (size_f x)") simp_all
  with Cons.IH show ?case by simp
qed

text \<open>
  C3, amended. For every positive \<open>N\<close>, top-N selection returns the first \<open>N\<close> items of
  the sorted list, which is a permutation of the input, so the result has length
  \<open>min N (length items)\<close>. When every size parses to a number, the result is sorted
  descending by parsed size, items of equal parsed size keep their input order, and
  every item of the result has a parsed size \<open>>=\<close> that of every item left out.
\<close>

theorem top_n_selection:
  assumes "0 < n"
  shows "applySizeFilters its (Some n) limit = take (nat n) (sortBySize its)
       \<and> length (applySizeFilters its (Some n) limit) = min (nat n) (length its)
       \<and> mset (sortBySize its) = mset its
       \<and> (all_numeric its \<longrightarrow>
            descending (applySizeFilters its (Some n) limit)
          \<and> (\<forall>v. filter (\<lambda>i. bytes i = v) (sortBySize its) = filter (\<lambda>i. bytes i = v) its)
          \<and> (\<forall>a\<in>set (take (nat n) (sortBySize its)).
               \<forall>b\<in>set (drop (nat n) (sortBySize its)). num_ge (bytes a) (bytes b)))"
proof -
  have r: "applySizeFilters its (Some n) limit = take (nat n) (sortBySize its)"
    using assms by (simp add: applySizeFilters_def int_truthy_def selectTopN_def)
  have l: "length (sortBySize its) = length its" and m: "mset (sortBySize its) = mset its"
    by (simp_all add: sortBySize_def)
  have "descending (take (nat n) (sortBySize its))
      \<and> (\<forall>a\<in>set (take (nat n) (sortBySize its)).
               \<forall>b\<in>set (drop (nat n) (sortBySize its)). num_ge (bytes a) (bytes b))"
    if "all_numeric its"
  proof -
    from that have "descending (take (nat n) (sortBySize its) @ drop (nat n) (sortBySize its))"
      by (simp add: descending_sortBySize)
    then show ?thesis
      unfolding descending_def sorted_wrt_append by blast
  qed
  with r l m show ?thesis
    by (simp add: stable_sortBySize)
qed

text \<open>
  C2, amended. For every positive limit the cumulative-limit selector returns a prefix
  of the sorted list (a permutation of the input), not empty unless the input is: no
  shorter prefix has a total \<open>>=\<close> the limit; when the result is a proper prefix its
  own total is \<open>>=\<close> the limit, so the item that crosses the limit is included; and
  when the total of all items is below the limit, all are returned. When every size
  parses to a number, the sorted list is descending by parsed size and items of equal
  parsed size keep their input order.
\<close>

theorem space_limit_selection:
  assumes "0 < limit"
  shows "length (applySizeFilters its None (Some limit)) \<le> length its
       \<and> applySizeFilters its None (Some limit)
           = take (length (applySizeFilters its None (Some limit))) (sortBySize its)
       \<and> (its \<noteq> [] \<longrightarrow> applySizeFilters its None (Some limit) \<noteq> [])
       \<and> (\<forall>j<length (applySizeFilters its None (Some limit)).
             \<not> num_ge (sum_sizes (take j (sortBySize its))) (Num limit))
       \<and> (length (applySizeFilters its None (Some limit)) < length its \<longrightarrow>
             num_ge (sum_sizes (applySizeFilters its None (Some limit))) (Num limit))
       \<and> (num_lt (sum_sizes (sortBySize its)) (Num limit) \<longrightarrow>
             applySizeFilters its None (Some limit) = sortBySize its)
       \<and> mset (sortBySize its) = mset its
       \<and> (all_numeric its \<longrightarrow>
             descending (sortBySize its)
           \<and> (\<forall>v. filter (\<lambda>i. bytes i = v) (sortBySize its) = filter (\<lambda>i. bytes i = v) its))"
proof -
  let ?s = "sortBySize its" and ?r = "applySizeFilters its None (Some limit)"
  have l: "length ?s = length its" and m: "mset ?s = mset its"
    by (simp_all add: sortBySize_def)
  have r: "?r = select_loop limit [] (Num 0) ?s"
    using assms by (simp add: applySizeFilters_def int_truthy_def selectUntilSpaceLimit_def)
  from select_loop_take [of ?s limit "[]" "Num 0"] obtain k where k: "k \<le> length ?s"
    and t: "?r = take k ?s"
    and n: "?s \<noteq> [] \<longrightarrow> 0 < k"
    and c: "k < length ?s \<longrightarrow> num_ge (run_sum (Num 0) (take k ?s)) (Num limit)"
    and b: "\<forall>j. 0 < j \<and> j < k \<longrightarrow> \<not> num_ge (run_sum (Num 0) (take j ?s)) (Num limit)"
    unfolding r by auto
  from k t have len: "length ?r = k" by simp
  have 1: "length ?r \<le> length its" using len k l by simp
  have 2: "?r = take (length ?r) ?s" using t len by simp
  have 3: "its \<noteq> [] \<longrightarrow> ?r \<noteq> []"
  proof
    assume "its \<noteq> []"
    with l have "?s \<noteq> []" by (metis length_0_conv)
    with n len show "?r \<noteq> []" by (metis length_0_conv less_numeral_extra(3))
  qed
  have 4: "\<forall>j<length ?r. \<not> num_ge (sum_sizes (take j ?s)) (Num limit)"
  proof (intro allI impI)
    fix j assume "j < length ?r"
    with len have j: "j < k" by simp
    show "\<not> num_ge (sum_sizes (take j ?s)) (Num limit)"
    proof (cases j)
      case 0
      with assms show ?thesis by (simp add: sum_sizes_run_sum)
    next
      case (Suc j')
      with j b show ?thesis by (simp add: sum_sizes_run_sum)
    qed
  qed
  have 5: "length ?r < length its \<longrightarrow> num_ge (sum_sizes ?r) (Num limit)"
    using c len l t by (simp add: sum_sizes_run_sum)
  have 6: "num_lt (sum_sizes ?s) (Num limit) \<longrightarrow> ?r = ?s"
  proof
    assume lt: "num_lt (sum_sizes ?s) (Num limit)"
    have "run_sum (Num 0) ?s \<noteq> NegInf" by (rule run_sum_not_NegInf) simp
    with lt obtain tt where tt: "run_sum (Num 0) ?s = Num tt" and "tt < limit"
      by (cases "sum_sizes ?s") (simp_all add: sum_sizes_run_sum)
    have "\<not> k < length ?s"
    proof
      assume kl: "k < length ?s"
      have "run_sum (Num 0) (take k ?s @ drop k ?s) = Num tt" using tt by simp
      from run_sum_prefix [OF this] obtain u where "run_sum (Num 0) (take k ?s) = Num u" "u \<le> tt"
        by blast
      with c kl \<open>tt < limit\<close> show False by simp
    qed
    with k t show "?r = ?s" by simp
  qed
  have 7: "all_numeric its \<longrightarrow>
             descending ?s \<and> (\<forall>v. filter (\<lambda>i. bytes i = v) ?s = filter (\<lambda>i. bytes i = v) its)"
    by (simp add: descending_sortBySize stable_sortBySize)
  from 1 2 3 4 5 6 7 m show ?thesis by blast
qed

lemma sample_bytes:
  "parseDockerSize (Some ''100MB'') = Num 100000000"
  "parseDockerSize (Some ''500 MB'') = Num 500000000"
  "parseDockerSize (Some ''300MB'') = Num 300000000"
  "parseDockerSize (Some ''5MB'') = Num 5000000"
  "parseDockerSize (Some ''1.2.3MB'') = NaN"
  by (simp_all add: size_eval char_eval)

lemma sample_sizes_sorted:
  "sortBySize sample_sizes
     = [sample_item ''b'' ''500 MB'' None, sample_item ''c'' ''300MB'' None,
        sample_item ''a'' ''100MB'' None]"
  by (simp add: sample_sizes_def sortBySize_def sort_cmp_def compare_size_def cmp_positive_def
      sample_item_def sample_bytes)

lemma sample_sizes_numeric: "all_numeric sample_sizes"
  by (simp add: all_numeric_def sample_sizes_def bytes_def sample_item_def sample_bytes)

lemma sample_nan_sorted: "sortBySize sample_nan = sample_nan"
  by (simp add: sample_nan_def sortBySize_def sort_cmp_def compare_size_def cmp_positive_def
      sample_item_def sample_bytes)

text \<open>
  C3 as stated fails on a size that parses to \<open>NaN\<close>: of the two items below, top-1
  selection keeps the one of size \<open>1.2.3MB\<close> (the comparator gives \<open>NaN\<close>, which counts
  as equal, and the sort is stable), and its parsed size is not \<open>>=\<close> that of the
  excluded item of 5 MB. Whichever of the two were kept, the comparison with \<open>NaN\<close>
  would be false.
\<close>

theorem top_n_nan_counterexample:
  "applySizeFilters sample_nan (Some 1) None = [sample_item ''x'' ''1.2.3MB'' None]
   \<and> sample_item ''y'' ''5MB'' None \<in> set sample_nan
   \<and> sample_item ''y'' ''5MB'' None \<notin> set (applySizeFilters sample_nan (Some 1) None)
   \<and> bytes (sample_item ''x'' ''1.2.3MB'' None) = NaN
   \<and> bytes (sample_item ''y'' ''5MB'' None) = Num 5000000
   \<and> \<not> num_ge (bytes (sample_item ''x'' ''1.2.3MB'' None)) (bytes (sample_item ''y'' ''5MB'' None))"
proof -
  have "applySizeFilters sample_nan (Some 1) None = take 1 (sortBySize sample_nan)"
    by (simp add: applySizeFilters_def int_truthy_def selectTopN_def)
  then have "applySizeFilters sample_nan (Some 1) None = [sample_item ''x'' ''1.2.3MB'' None]"
    by (simp add: sample_nan_sorted) (simp add: sample_nan_def)
  moreover have "bytes (sample_item ''x'' ''1.2.3MB'' None) = NaN"
    "bytes (sample_item ''y'' ''5MB'' None) = Num 5000000"
    by (simp_all add: bytes_def sample_item_def sample_bytes)
  ultimately show ?thesis
    by (simp add: sample_nan_def sample_item_def)
qed

theorem top_n_selection_witness:
  "(0::int) < 2 \<and> all_numeric sample_sizes
   \<and> applySizeFilters sample_sizes (Some 2) None
       = [sample_item ''b'' ''500 MB'' None, sample_item ''c'' ''300MB'' None]
   \<and> length (applySizeFilters sample_sizes (Some 2) None) = 2
   \<and> descending (applySizeFilters sample_sizes (Some 2) None)
   \<and> num_ge (bytes (sample_item ''b'' ''500 MB'' None)) (bytes (sample_item ''a'' ''100MB'' None))
   \<and> num_ge (bytes (sample_item ''c'' ''300MB'' None)) (bytes (sample_item ''a'' ''100MB'' None))"
proof -
  have p: "(0::int) < 2" by simp
  from top_n_selection [OF p, of sample_sizes None] sample_sizes_numeric
  have "applySizeFilters sample_sizes (Some 2) None = take (nat 2) (sortBySize sample_sizes)"
    and "length (applySizeFilters sample_sizes (Some 2) None) = min (nat 2) (length sample_sizes)"
    and "descending (applySizeFilters sample_sizes (Some 2) None)"
    and "\<forall>a\<in>set (take (nat 2) (sortBySize sample_sizes)).
           \<forall>b\<in>set (drop (nat 2) (sortBySize sample_sizes)). num_ge (bytes a) (bytes b)"
    by blast+
  then show ?thesis
    using sample_sizes_numeric
    by (simp add: sample_sizes_sorted)
qed

text \<open>
  C2 as stated fails on a size that parses to \<open>NaN\<close>: for the limit of 1 byte the
  selector returns both items below, in an order that is not descending by parsed
  size, and their running total is \<open>NaN\<close>, neither \<open>>=\<close> the limit nor below it,
  although the second item alone exceeds the limit.
\<close>

theorem space_limit_nan_counterexample:
  "applySizeFilters sample_nan None (Some 1) = sample_nan
   \<and> \<not> descending (applySizeFilters sample_nan None (Some 1))
   \<and> sum_sizes (applySizeFilters sample_nan None (Some 1)) = NaN
   \<and> \<not> num_ge (sum_sizes (applySizeFilters sample_nan None (Some 1))) (Num 1)
   \<and> \<not> num_lt (sum_sizes sample_nan) (Num 1)"
proof -
  have "applySizeFilters sample_nan None (Some 1) = select_loop 1 [] (Num 0) (sortBySize sample_nan)"
    by (simp add: applySizeFilters_def int_truthy_def selectUntilSpaceLimit_def)
  then have r: "applySizeFilters sample_nan None (Some 1) = sample_nan"
    unfolding sample_nan_sorted
    by (simp add: sample_nan_def sample_item_def sample_bytes)
  have s: "sum_sizes sample_nan = NaN"
    by (simp add: sum_sizes_def sample_nan_def sample_item_def sample_bytes)
  have d: "\<not> descending sample_nan"
    by (simp add: descending_def sample_nan_def bytes_def sample_item_def sample_bytes)
  from r s d show ?thesis by simp
qed

theorem space_limit_selection_witness:
  "(0::int) < 600000000 \<and> all_numeric sample_sizes
   \<and> applySizeFilters sample_sizes None (Some 600000000)
       = [sample_item ''b'' ''500 MB'' None, sample_item ''c'' ''300MB'' None]
   \<and> sum_sizes (applySizeFilters sample_sizes None (Some 600000000)) = Num 800000000
   \<and> \<not> num_ge (sum_sizes [sample_item ''b'' ''500 MB'' None]) (Num 600000000)
   \<and> descending (sortBySize sample_sizes)"
proof -
  have p: "(0::int) < 600000000" by simp
  let ?r = "applySizeFilters sample_sizes None (Some 600000000)"
  note t = space_limit_selection [OF p, of sample_sizes]
  from t have pre: "?r = take (length ?r) (sortBySize sample_sizes)" by blast
  from t have len: "length ?r \<le> length sample_sizes" by blast
  from t have low: "\<forall>j<length ?r. \<not> num_ge (sum_sizes (take j (sortBySize sample_sizes))) (Num 600000000)"
    by blast
  from t have hi: "length ?r < length sample_sizes \<longrightarrow> num_ge (sum_sizes ?r) (Num 600000000)"
    by blast
  from t sample_sizes_numeric have d: "descending (sortBySize sample_sizes)" by blast
  have s1: "sum_sizes (take 1 (sortBySize sample_sizes)) = Num 500000000"
    and s2: "sum_sizes (take 2 (sortBySize sample_sizes)) = Num 800000000"
    and s3: "sum_sizes (take 3 (sortBySize sample_sizes)) = Num 900000000"
    by (simp_all add: sample_sizes_sorted sum_sizes_def sample_item_def sample_bytes
        numeral_2_eq_2 numeral_3_eq_3)
  have "length ?r = 2"
  proof -
    from len have "length ?r \<le> 3" by (simp add: sample_sizes_def)
    moreover have "length ?r \<noteq> 3"
    proof
      assume "length ?r = 3"
      with low have "\<not> num_ge (sum_sizes (take 2 (sortBySize sample_sizes))) (Num 600000000)"
        by simp
      with s2 show False by simp
    qed
    moreover have "length ?r \<noteq> 0"
    proof
      assume z: "length ?r = 0"
      with pre have "sum_sizes ?r = Num 0" by (simp add: sum_sizes_def)
      with hi z show False by (simp add: sample_sizes_def)
    qed
    moreover have "length ?r \<noteq> 1"
    proof
      assume o: "length ?r = 1"
      with pre s1 have "sum_sizes ?r = Num 500000000" by simp
      with hi o show False by (simp add: sample_sizes_def)
    qed
    ultimately show ?thesis by arith
  qed
  with pre s2 have "?r = take 2 (sortBySize sample_sizes)" "sum_sizes ?r = Num 800000000"
    by simp_all
  then show ?thesis
    using d sample_sizes_numeric
    by (simp add: sample_sizes_sorted sum_sizes_def sample_item_def sample_bytes)
qed

subsection \<open>Size parsing\<close>


lemma lower_letters [simp]:
  "ascii_lower CHR ''B'' = CHR ''b''" "ascii_lower CHR ''K'' = CHR ''k''"
  "ascii_lower CHR ''M'' = CHR ''m''" "ascii_lower CHR ''G'' = CHR ''g''"
  "ascii_lower CHR ''T'' = CHR ''t''" "ascii_lower CHR ''b'' = CHR ''b''"
  "ascii_lower CHR ''k'' = CHR ''k''" "ascii_lower CHR ''m'' = CHR ''m''"
  "ascii_lower CHR ''g'' = CHR ''g''" "ascii_lower CHR ''t'' = CHR ''t''"
  by (simp_all add: ascii_lower_def)








lemma alt_units_Nil: "alt unit_alts k [] = None"
  by (simp add: unit_alts_def)



















subsection \<open>Rounding to doubles\<close>










lemma rv_pair [simp]: "rv (a, b) = real a / real b"
  by (simp add: rv_def)





















subsection \<open>The first occurrence of a size\<close>






end
